theory Spec2Isabelle
  imports Complex_Main "HOL-Library.Log_Nat"
begin

section \<open>The cart store of CartProvider.tsx\<close>

text \<open>
  The component keeps three pieces of React state (\<open>cart\<close>, \<open>isCartOpen\<close>,
  \<open>loaded\<close>), reads and writes the browser's \<open>localStorage\<close> under the key
  \<open>cart\<close>, and reports problems with \<open>console.error\<close>. The model passes all of it
  around as one record, so that every operation of the component is a function from
  worlds to worlds.
\<close>

subsection \<open>Numbers\<close>

text \<open>
  A TypeScript \<open>number\<close> is an IEEE 754 binary64 value: \<open>NaN\<close>, an infinity, or a
  finite value, given here by the real number it denotes. The two zeros are one value:
  the component never divides and never tells them apart.
\<close>

datatype double = NaN | PosInf | NegInf | Fin real

text \<open>
  What a field or an argument of type \<open>number\<close> holds when the program runs: a
  binary64 value, or \<open>null\<close>, which is what \<open>JSON.parse\<close> reads where
  \<open>JSON.stringify\<close> had written a \<open>NaN\<close> or an infinity.
\<close>

datatype number = Null | Num double

abbreviation num :: "real \<Rightarrow> number" where
  "num x \<equiv> Num (Fin x)"

text \<open>Powers of two with an integer exponent.\<close>

definition pow2 :: "int \<Rightarrow> real" where
  "pow2 k = (if 0 \<le> k then 2 ^ nat k else 1 / 2 ^ nat (- k))"

text \<open>
  The binade of a non-zero real: the exponent \<open>e\<close> with \<open>2\<^sup>e \<le> |x| < 2\<^sup>e\<^sup>+\<^sup>1\<close>, computed
  from the bit length of an integer.
\<close>

definition binade :: "real \<Rightarrow> int" where
  "binade x =
     (if 1 \<le> \<bar>x\<bar> then bitlen \<lfloor>\<bar>x\<bar>\<rfloor> - 1 else - bitlen (\<lceil>1 / \<bar>x\<bar>\<rceil> - 1))"

text \<open>
  The distance between neighbouring binary64 values around \<open>x\<close>: 52 fraction bits
  below the binade, and no finer than \<open>2\<^sup>-\<^sup>1\<^sup>0\<^sup>7\<^sup>4\<close>, the spacing of the subnormals.
\<close>

definition ulp :: "real \<Rightarrow> real" where
  "ulp x = pow2 (max (binade x) (- 1022) - 52)"

text \<open>The nearest integer, the even one of two that are equally near.\<close>

definition ties_to_even :: "real \<Rightarrow> int" where
  "ties_to_even y =
     (let f = \<lfloor>y\<rfloor>; d = y - of_int f
      in if d < 1 / 2 then f else if 1 / 2 < d then f + 1 else if even f then f else f + 1)"

text \<open>
  The binary64 value of a real result (roundTiesToEven): the nearest multiple of the
  spacing, and an infinity when that reaches \<open>2\<^sup>1\<^sup>0\<^sup>2\<^sup>4\<close>.
\<close>

definition round64 :: "real \<Rightarrow> double" where
  "round64 x =
     (let r = of_int (ties_to_even (x / ulp x)) * ulp x
      in if pow2 1024 \<le> \<bar>r\<bar> then (if 0 < x then PosInf else NegInf) else Fin r)"

text \<open>\<open>Number.MAX_VALUE\<close>, the largest finite binary64 value.\<close>

definition MAX_VALUE :: real where
  "MAX_VALUE = pow2 1024 - pow2 971"

text \<open>Binary64 addition, multiplication and \<open>\<le>\<close>.\<close>

fun add64 :: "double \<Rightarrow> double \<Rightarrow> double" where
  "add64 NaN y = NaN"
| "add64 x NaN = NaN"
| "add64 PosInf NegInf = NaN"
| "add64 NegInf PosInf = NaN"
| "add64 PosInf y = PosInf"
| "add64 x PosInf = PosInf"
| "add64 NegInf y = NegInf"
| "add64 x NegInf = NegInf"
| "add64 (Fin x) (Fin y) = round64 (x + y)"

fun negate :: "double \<Rightarrow> double" where
  "negate NaN = NaN"
| "negate PosInf = NegInf"
| "negate NegInf = PosInf"
| "negate (Fin x) = Fin (- x)"

fun mul64 :: "double \<Rightarrow> double \<Rightarrow> double" where
  "mul64 NaN y = NaN"
| "mul64 x NaN = NaN"
| "mul64 (Fin x) (Fin y) = round64 (x * y)"
| "mul64 (Fin x) y = (if x = 0 then NaN else if 0 < x then y else negate y)"
| "mul64 x (Fin y) = (if y = 0 then NaN else if 0 < y then x else negate x)"
| "mul64 x y = (if x = y then PosInf else NegInf)"

fun le64 :: "double \<Rightarrow> double \<Rightarrow> bool" where
  "le64 NaN y = False"
| "le64 x NaN = False"
| "le64 NegInf y = True"
| "le64 x PosInf = True"
| "le64 PosInf y = False"
| "le64 x NegInf = False"
| "le64 (Fin x) (Fin y) = (x \<le> y)"

text \<open>
  The operators \<open>+\<close>, \<open>*\<close> and \<open><=\<close> of the source on what number fields hold:
  \<open>null\<close> counts as zero (\<open>ToNumber\<close>).
\<close>

definition ToNumber :: "number \<Rightarrow> double" where
  "ToNumber v = (case v of Null \<Rightarrow> Fin 0 | Num d \<Rightarrow> d)"

definition js_plus :: "number \<Rightarrow> number \<Rightarrow> number" where
  "js_plus a b = Num (add64 (ToNumber a) (ToNumber b))"

definition js_times :: "number \<Rightarrow> number \<Rightarrow> number" where
  "js_times a b = Num (mul64 (ToNumber a) (ToNumber b))"

definition js_le :: "number \<Rightarrow> number \<Rightarrow> bool" where
  "js_le a b = le64 (ToNumber a) (ToNumber b)"

text \<open>
  \<open>Number.isInteger\<close>: a finite value with no fraction, within the range of the finite
  binary64 values.
\<close>

definition Number_isInteger :: "number \<Rightarrow> bool" where
  "Number_isInteger v =
     (case v of Num (Fin x) \<Rightarrow> of_int \<lfloor>x\<rfloor> = x \<and> \<bar>x\<bar> \<le> MAX_VALUE | _ \<Rightarrow> False)"


text \<open>The real number that a finite value denotes (zero for the others).\<close>

definition real_of :: "number \<Rightarrow> real" where
  "real_of v = (case v of Num (Fin x) \<Rightarrow> x | _ \<Rightarrow> 0)"

subsection \<open>Data\<close>

text \<open>
  \<open>Omit<CartItem, 'quantity'>\<close>, the argument type of \<open>addToCart\<close>. The fields
  \<open>id\<close> and \<open>image\<close> carry a prime, since HOL has constants of those names.
\<close>

record Product =
  id' :: string
  name :: string
  price :: number
  description :: string
  image' :: "string option"

text \<open>\<open>interface CartItem\<close>: the product fields and the quantity.\<close>

record CartItem = Product +
  quantity :: number

text \<open>What can be thrown inside the component's \<open>try\<close> blocks.\<close>

datatype exn =
  SyntaxError       \<comment> \<open>\<open>JSON.parse\<close> on text that is not JSON\<close>
  | ReferenceError  \<comment> \<open>\<open>localStorage\<close> named where there is no \<open>window\<close>\<close>
  | DOMException    \<comment> \<open>a storage call refused by the browser (quota, access denied)\<close>

text \<open>The six \<open>console.error\<close> calls of the file, in the order of the source.\<close>

datatype log_entry =
  InvalidFormat         \<comment> \<open>line 54\<close>
  | LoadFailed exn      \<comment> \<open>line 60\<close>
  | ResetFailed exn     \<comment> \<open>line 65\<close>
  | SaveFailed exn      \<comment> \<open>line 79\<close>
  | InvalidProduct      \<comment> \<open>line 95\<close>
  | ClearFailed exn     \<comment> \<open>line 150\<close>

text \<open>
  The result of \<open>JSON.parse\<close> as far as the component looks at it: an array, adopted at
  the element type that \<open>useState<CartItem[]>\<close> declares, or any other value. Arrays
  whose elements are not cart items are outside the typed model.
\<close>

datatype parsed = Array "CartItem list" | NonArray

text \<open>
  The world: the React state of one provider instance, the browser around it and the
  console. \<open>faults\<close> is the behaviour of the storage backend: its head says whether
  the next storage call throws, and every call consumes one entry; the empty list is a
  storage that never throws.
\<close>

record world =
  cart :: "CartItem list"
  isCartOpen :: bool
  loaded :: bool
  window_defined :: bool
  localStorage :: "string \<rightharpoonup> string"
  faults :: "bool list"
  console :: "log_entry list"

text \<open>
  Lines 37 to 39: the state of a provider instance when it is created, in a browser
  given by the three arguments.
\<close>

definition mount :: "bool \<Rightarrow> (string \<rightharpoonup> string) \<Rightarrow> bool list \<Rightarrow> world" where
  "mount win store fs =
     \<lparr>cart = [], isCartOpen = False, loaded = False, window_defined = win,
      localStorage = store, faults = fs, console = []\<rparr>"

subsection \<open>The platform calls\<close>

definition console_error :: "log_entry \<Rightarrow> world \<Rightarrow> world" where
  "console_error e w = w\<lparr>console := console w @ [e]\<rparr>"

text \<open>Naming \<open>localStorage\<close> and calling one of its methods: throws or goes through.\<close>

definition storage_access :: "world \<Rightarrow> exn option \<times> world" where
  "storage_access w =
     (if \<not> window_defined w then (Some ReferenceError, w)
      else case faults w of
             [] \<Rightarrow> (None, w)
           | f # fs \<Rightarrow> (if f then Some DOMException else None, w\<lparr>faults := fs\<rparr>))"

definition getItem :: "string \<Rightarrow> world \<Rightarrow> (exn + string option) \<times> world" where
  "getItem k w =
     (case storage_access w of
        (Some e, w1) \<Rightarrow> (Inl e, w1)
      | (None, w1) \<Rightarrow> (Inr (localStorage w1 k), w1))"

definition setItem :: "string \<Rightarrow> string \<Rightarrow> world \<Rightarrow> (exn + unit) \<times> world" where
  "setItem k v w =
     (case storage_access w of
        (Some e, w1) \<Rightarrow> (Inl e, w1)
      | (None, w1) \<Rightarrow> (Inr (), w1\<lparr>localStorage := (localStorage w1)(k \<mapsto> v)\<rparr>))"

definition removeItem :: "string \<Rightarrow> world \<Rightarrow> (exn + unit) \<times> world" where
  "removeItem k w =
     (case storage_access w of
        (Some e, w1) \<Rightarrow> (Inl e, w1)
      | (None, w1) \<Rightarrow> (Inr (), w1\<lparr>localStorage := (localStorage w1)(k := None)\<rparr>))"

text \<open>\<open>Array.prototype.findIndex\<close>: the first index whose element passes, or \<open>-1\<close>.\<close>

fun findIndex :: "('a \<Rightarrow> bool) \<Rightarrow> 'a list \<Rightarrow> int" where
  "findIndex P [] = - 1"
| "findIndex P (x # xs) =
     (if P x then 0
      else (let i = findIndex P xs in if i = - 1 then - 1 else i + 1))"

subsection \<open>The two effects\<close>

text \<open>
  Lines 45 to 58, the body of the \<open>try\<close> of the hydration effect. The first argument is
  \<open>JSON.parse\<close>, with \<open>None\<close> for a thrown \<open>SyntaxError\<close>. \<open>if (savedCart)\<close> passes
  on a string that is present and not empty.
\<close>

definition hydrate_try :: "(string \<Rightarrow> parsed option) \<Rightarrow> world \<Rightarrow> (exn + unit) \<times> world" where
  "hydrate_try JSON_parse w =
     (case getItem ''cart'' w of
        (Inl e, w1) \<Rightarrow> (Inl e, w1)
      | (Inr savedCart, w1) \<Rightarrow>
          (case savedCart of
             None \<Rightarrow> (Inr (), w1)
           | Some s \<Rightarrow>
               if s = [] then (Inr (), w1)
               else (case JSON_parse s of
                       None \<Rightarrow> (Inl SyntaxError, w1)
                     | Some (Array parsedCart) \<Rightarrow> (Inr (), w1\<lparr>cart := parsedCart\<rparr>)
                     | Some NonArray \<Rightarrow>
                         removeItem ''cart'' ((console_error InvalidFormat w1)\<lparr>cart := []\<rparr>))))"

text \<open>Lines 42 to 70: the guard, the \<open>try\<close>, its \<open>catch\<close> and the \<open>finally\<close>.\<close>

definition hydrate :: "(string \<Rightarrow> parsed option) \<Rightarrow> world \<Rightarrow> world" where
  "hydrate JSON_parse w =
     (if \<not> window_defined w then w
      else
        (let w' =
           (case hydrate_try JSON_parse w of
              (Inr u, w1) \<Rightarrow> w1
            | (Inl err, w1) \<Rightarrow>
                (case removeItem ''cart'' (console_error (LoadFailed err) w1) of
                   (Inr u, w2) \<Rightarrow> w2
                 | (Inl clearErr, w2) \<Rightarrow> console_error (ResetFailed clearErr) w2))
         in w'\<lparr>loaded := True\<rparr>))"

text \<open>Lines 73 to 81, the persist effect. The first argument is \<open>JSON.stringify\<close>.\<close>

definition persist :: "(CartItem list \<Rightarrow> string) \<Rightarrow> world \<Rightarrow> world" where
  "persist JSON_stringify w =
     (if \<not> loaded w \<or> \<not> window_defined w then w
      else
        (case setItem ''cart'' (JSON_stringify (cart w)) w of
           (Inr u, w1) \<Rightarrow> w1
         | (Inl err, w1) \<Rightarrow> console_error (SaveFailed err) w1))"

subsection \<open>The derived values\<close>

text \<open>Lines 84 to 90: two \<open>reduce\<close> calls, from the left, starting at \<open>0\<close>.\<close>

definition totalItems :: "world \<Rightarrow> number" where
  "totalItems w = foldl (\<lambda>total item. js_plus total (quantity item)) (num 0) (cart w)"

definition totalPrice :: "world \<Rightarrow> number" where
  "totalPrice w =
     foldl (\<lambda>total item. js_plus total (js_times (price item) (quantity item))) (num 0) (cart w)"

subsection \<open>The operations\<close>

text \<open>
  Lines 93 to 120. The argument is \<open>None\<close> for an absent product; an \<open>id\<close> is falsy
  exactly when it is the empty string.
\<close>

definition addToCart :: "Product option \<Rightarrow> world \<Rightarrow> world" where
  "addToCart product w =
     (case product of
        None \<Rightarrow> console_error InvalidProduct w
      | Some p \<Rightarrow>
          if id' p = [] then console_error InvalidProduct w
          else
            (let prevCart = cart w;
                 existingItemIndex = findIndex (\<lambda>item. id' item = id' p) prevCart;
                 newCart =
                   (if existingItemIndex \<noteq> - 1
                    then prevCart[nat existingItemIndex :=
                           (prevCart ! nat existingItemIndex)
                             \<lparr>quantity :=
                                js_plus (quantity (prevCart ! nat existingItemIndex)) (num 1)\<rparr>]
                    else prevCart @
                           [\<lparr>id' = id' p, name = name p, price = price p,
                             description = description p, image' = image' p,
                             quantity = num 1\<rparr>])
             in w\<lparr>cart := newCart, isCartOpen := True\<rparr>))"

text \<open>Lines 123 to 126.\<close>

definition removeFromCart :: "string \<Rightarrow> world \<Rightarrow> world" where
  "removeFromCart i w =
     (if i = [] then w
      else w\<lparr>cart := filter (\<lambda>item. id' item \<noteq> i) (cart w)\<rparr>)"

text \<open>Lines 129 to 142.\<close>

definition updateQuantity :: "string \<Rightarrow> number \<Rightarrow> world \<Rightarrow> world" where
  "updateQuantity i q w =
     (if i = [] then w
      else if js_le q (num 0) then removeFromCart i w
      else w\<lparr>cart := map (\<lambda>item. if id' item = i then item\<lparr>quantity := q\<rparr> else item)
                       (cart w)\<rparr>)"

text \<open>Lines 145 to 152.\<close>

definition clearCart :: "world \<Rightarrow> world" where
  "clearCart w =
     (case removeItem ''cart'' (w\<lparr>cart := []\<rparr>) of
        (Inr u, w1) \<Rightarrow> w1
      | (Inl err, w1) \<Rightarrow> console_error (ClearFailed err) w1)"

text \<open>The setter of \<open>useState(false)\<close>, line 38, exposed at line 161.\<close>

definition setIsCartOpen :: "bool \<Rightarrow> world \<Rightarrow> world" where
  "setIsCartOpen isOpen w = w\<lparr>isCartOpen := isOpen\<rparr>"


subsection \<open>Sequences of calls\<close>

text \<open>The three mutations that the invariant of the cart is about, as values.\<close>

datatype call =
  AddToCart "Product option"
  | RemoveFromCart string
  | UpdateQuantity string number

fun perform :: "call \<Rightarrow> world \<Rightarrow> world" where
  "perform (AddToCart product) w = addToCart product w"
| "perform (RemoveFromCart i) w = removeFromCart i w"
| "perform (UpdateQuantity i q) w = updateQuantity i q w"

definition perform_all :: "call list \<Rightarrow> world \<Rightarrow> world" where
  "perform_all cs w = foldl (\<lambda>w c. perform c w) w cs"

subsection \<open>The JSON value of a cart\<close>

text \<open>
  The values of JSON. \<open>JSON.stringify\<close> writes the text of one, \<open>JSON.parse\<close> reads
  one from a text.
\<close>

datatype json =
  JNull
  | JBool bool
  | JNumber real
  | JString string
  | JArray "json list"
  | JObject "(string \<times> json) list"









subsection \<open>Sample data\<close>

definition pen :: Product where
  "pen = \<lparr>id' = ''p1'', name = ''Pen'', price = num 2, description = ''A pen'',
          image' = None\<rparr>"

definition ink :: Product where
  "ink = \<lparr>id' = ''p2'', name = ''Ink'', price = num 5, description = ''Blue ink'',
          image' = Some ''/ink.png''\<rparr>"

definition line :: "Product \<Rightarrow> number \<Rightarrow> CartItem" where
  "line p q = \<lparr>id' = id' p, name = name p, price = price p, description = description p,
               image' = image' p, quantity = q\<rparr>"

text \<open>A browser whose storage is empty and never throws, with a freshly created provider.\<close>

definition browser :: world where
  "browser = mount True Map.empty []"

text \<open>A provider that has hydrated and holds three entries, two of them with one id.\<close>

definition stocked :: world where
  "stocked =
     browser\<lparr>cart := [line pen (num 1), line ink (num 3), line pen (num 7)], loaded := True\<rparr>"

text \<open>The same provider over a storage that still holds an earlier encoding of a cart.\<close>

definition saved :: world where
  "saved = stocked\<lparr>localStorage := [''cart'' \<mapsto> ''[pen,ink]'']\<rparr>"

subsection \<open>The totals in the words of the specification\<close>

text \<open>
  The sum of the quantity fields, and the sum of price times quantity, as sums of the
  real numbers that the fields denote.
\<close>

definition sum_of_quantities :: "world \<Rightarrow> real" where
  "sum_of_quantities w = (\<Sum>item\<leftarrow>cart w. real_of (quantity item))"

definition sum_of_price_times_quantity :: "world \<Rightarrow> real" where
  "sum_of_price_times_quantity w =
     (\<Sum>item\<leftarrow>cart w. real_of (price item) * real_of (quantity item))"

subsection \<open>More sample data\<close>

definition pad :: Product where
  "pad = \<lparr>id' = ''p3'', name = ''Pad'', price = num 3, description = ''A writing pad'',
          image' = None\<rparr>"

text \<open>A cart whose first quantity is \<open>2\<^sup>5\<^sup>3\<close>.\<close>

definition heavy :: world where
  "heavy =
     browser\<lparr>cart := [line pen (num (2 ^ 53)), line ink (num 1), line pad (num 1)],
       loaded := True\<rparr>"

text \<open>The binary64 values of the literals \<open>0.1\<close> and \<open>0.2\<close>.\<close>

definition tenth :: real where
  "tenth = 3602879701896397 / 2 ^ 55"

definition fifth :: real where
  "fifth = 3602879701896397 / 2 ^ 54"

text \<open>A cart with one item at each of these prices.\<close>

definition change :: world where
  "change =
     browser\<lparr>cart := [line (pen\<lparr>price := num tenth\<rparr>) (num 1),
                     line (ink\<lparr>price := num fifth\<rparr>) (num 1)]\<rparr>"



section \<open>Binary64 arithmetic\<close>

lemma pow2_powr: "pow2 k = (2::real) powr (of_int k)"
proof (cases "0 \<le> k")
  case True
  then show ?thesis
    by (simp add: pow2_def powr_realpow [symmetric])
next
  case False
  then have "(2::real) powr (of_int k) = 1 / 2 powr (of_int (- k))"
    by (simp add: powr_minus_divide)
  also have "\<dots> = 1 / 2 ^ nat (- k)"
    using False by (simp add: powr_realpow [symmetric])
  finally show ?thesis using False by (simp add: pow2_def)
qed

lemma pow2_pos: "0 < pow2 k"
  by (simp add: pow2_powr)

lemma pow2_add: "pow2 (a + b) = pow2 a * pow2 b"
  by (simp add: pow2_powr powr_add)

lemma pow2_le_iff: "pow2 a \<le> pow2 b \<longleftrightarrow> a \<le> b"
  by (simp add: pow2_powr)

lemma pow2_less_iff: "pow2 a < pow2 b \<longleftrightarrow> a < b"
  by (simp add: pow2_powr)

lemma pow2_nat: "0 \<le> k \<Longrightarrow> pow2 k = 2 ^ nat k"
  by (simp add: pow2_def)

lemma pow2_0 [simp]: "pow2 0 = 1"
  by (simp add: pow2_def)

lemma binade_bracket:
  assumes "x \<noteq> 0"
  shows "pow2 (binade x) \<le> \<bar>x\<bar> \<and> \<bar>x\<bar> < pow2 (binade x + 1)"
proof (cases "1 \<le> \<bar>x\<bar>")
  case True
  define n where "n = \<lfloor>\<bar>x\<bar>\<rfloor>"
  from True have n: "0 < n" by (simp add: n_def)
  from bitlen_bounds [OF n] have b: "2 ^ nat (bitlen n - 1) \<le> n" "n < 2 ^ nat (bitlen n)"
    by simp_all
  from n have len: "1 \<le> bitlen n"
    by (simp add: bitlen_alt_def)
  have "real_of_int (2 ^ nat (bitlen n - 1)) \<le> of_int n"
    using b(1) by (simp only: of_int_le_iff)
  also have "\<dots> \<le> \<bar>x\<bar>" by (simp add: n_def)
  finally have lo: "pow2 (bitlen n - 1) \<le> \<bar>x\<bar>"
    using len by (simp add: pow2_nat)
  from b(2) have "n + 1 \<le> 2 ^ nat (bitlen n)" by simp
  then have "real_of_int (n + 1) \<le> real_of_int (2 ^ nat (bitlen n))"
    by (simp only: of_int_le_iff)
  moreover have "\<bar>x\<bar> < real_of_int (n + 1)"
    by (simp add: n_def)
  ultimately have hi: "\<bar>x\<bar> < pow2 (bitlen n)"
    using len by (simp add: pow2_nat)
  from True lo hi show ?thesis
    by (simp add: binade_def n_def)
next
  case False
  define y where "y = 1 / \<bar>x\<bar>"
  define m where "m = \<lceil>y\<rceil>"
  from False assms have y: "1 < y"
    by (simp add: y_def)
  then have m: "0 < m - 1"
    by (simp add: m_def less_ceiling_iff)
  from bitlen_bounds [OF m] have b: "2 ^ nat (bitlen (m - 1) - 1) \<le> m - 1"
      "m - 1 < 2 ^ nat (bitlen (m - 1))"
    by simp_all
  from m have len: "1 \<le> bitlen (m - 1)"
    by (simp add: bitlen_alt_def)
  have "real_of_int (2 ^ nat (bitlen (m - 1) - 1)) \<le> of_int (m - 1)"
    using b(1) by (simp only: of_int_le_iff)
  also have "\<dots> < y"
    by (simp add: m_def) linarith
  finally have lo: "pow2 (bitlen (m - 1) - 1) < y"
    using len by (simp add: pow2_nat)
  from b(2) have "m \<le> 2 ^ nat (bitlen (m - 1))" by simp
  then have "real_of_int m \<le> 2 ^ nat (bitlen (m - 1))"
    by simp
  moreover have "y \<le> real_of_int m"
    by (simp add: m_def)
  ultimately have "y \<le> 2 ^ nat (bitlen (m - 1))"
    by (rule order_trans [rotated])
  then have hi: "y \<le> pow2 (bitlen (m - 1))"
    using len by (simp add: pow2_nat)
  have xy: "\<bar>x\<bar> = 1 / y" using assms by (simp add: y_def)
  have inv: "pow2 (- k) = 1 / pow2 k" for k
    by (simp add: pow2_powr powr_minus_divide)
  have "pow2 (- bitlen (m - 1)) \<le> \<bar>x\<bar>"
    using hi y by (simp add: xy inv frac_le)
  moreover have "\<bar>x\<bar> < pow2 (- bitlen (m - 1) + 1)"
  proof -
    have "- bitlen (m - 1) + 1 = - (bitlen (m - 1) - 1)" by simp
    then have "pow2 (- bitlen (m - 1) + 1) = 1 / pow2 (bitlen (m - 1) - 1)"
      by (simp only: inv)
    moreover have "1 / y < 1 / pow2 (bitlen (m - 1) - 1)"
      using lo pow2_pos [of "bitlen (m - 1) - 1"] by (simp add: frac_less2)
    ultimately show ?thesis by (simp add: xy)
  qed
  ultimately show ?thesis
    using False by (simp add: binade_def y_def m_def)
qed

lemma ties_to_even_int [simp]: "ties_to_even (of_int k) = k"
  by (simp add: ties_to_even_def)

lemma ties_to_even_lower: "\<lfloor>y\<rfloor> \<le> ties_to_even y"
  by (simp add: ties_to_even_def Let_def)

lemma ties_to_even_upper: "y < of_int n + 1 / 2 \<Longrightarrow> ties_to_even y \<le> n"
  unfolding ties_to_even_def Let_def
  by (auto simp: floor_le_iff)


lemma ulp_pos: "0 < ulp x"
  by (simp add: ulp_def pow2_pos)

lemma round64_fixed:
  assumes "x / ulp x \<in> \<int>" and "\<bar>x\<bar> < pow2 1024"
  shows "round64 x = Fin x"
proof -
  from assms(1) obtain k where k: "x / ulp x = of_int k"
    by (auto elim: Ints_cases)
  from k ulp_pos [of x] have "of_int k * ulp x = x"
    by (simp add: field_simps)
  with assms(2) k show ?thesis
    by (simp add: round64_def Let_def)
qed

lemma binade_upper: "x \<noteq> 0 \<Longrightarrow> \<bar>x\<bar> < pow2 k \<Longrightarrow> binade x < k"
proof -
  assume "x \<noteq> 0" and "\<bar>x\<bar> < pow2 k"
  with binade_bracket [of x] have "pow2 (binade x) < pow2 k"
    by linarith
  then show ?thesis by (simp only: pow2_less_iff)
qed

lemma binade_lower: "pow2 k \<le> \<bar>x\<bar> \<Longrightarrow> k \<le> binade x"
proof -
  assume k: "pow2 k \<le> \<bar>x\<bar>"
  with pow2_pos [of k] have "x \<noteq> 0" by linarith
  from binade_bracket [OF this] k have "pow2 k < pow2 (binade x + 1)"
    by linarith
  then have "k < binade x + 1" by (simp only: pow2_less_iff)
  then show ?thesis by simp
qed

lemma binade_nonneg: "1 \<le> \<bar>x\<bar> \<Longrightarrow> 0 \<le> binade x"
  using binade_lower [of 0 x] by simp

lemma ulp_normal: "1 \<le> \<bar>x\<bar> \<Longrightarrow> ulp x = pow2 (binade x - 52)"
  using binade_nonneg [of x] by (simp add: ulp_def max_def)

lemma pow2_numeral: "pow2 (numeral k) = 2 ^ numeral k"
  by (simp add: pow2_def)

lemma round64_int:
  assumes "\<bar>n\<bar> \<le> 2 ^ 53"
  shows "round64 (of_int n) = Fin (of_int n)"
proof (cases "n = 0")
  case True
  then show ?thesis by (simp add: round64_fixed pow2_pos)
next
  case False
  let ?x = "real_of_int n"
  from False have "1 \<le> \<bar>n\<bar>" by simp
  then have "real_of_int 1 \<le> real_of_int \<bar>n\<bar>" by (simp only: of_int_le_iff)
  then have x1: "1 \<le> \<bar>?x\<bar>" by simp
  from assms have "real_of_int \<bar>n\<bar> \<le> real_of_int (2 ^ 53)" by (simp only: of_int_le_iff)
  then have x53: "\<bar>?x\<bar> \<le> pow2 53" by (simp add: pow2_numeral)
  have "pow2 53 < pow2 1024" by (simp only: pow2_less_iff)
  with x53 have big: "\<bar>?x\<bar> < pow2 1024" by linarith
  from x1 have nz: "?x \<noteq> 0" by auto
  have b53: "binade ?x \<le> 53"
  proof -
    from binade_bracket [OF nz] x53 have "pow2 (binade ?x) \<le> pow2 53" by linarith
    then show ?thesis by (simp only: pow2_le_iff)
  qed
  have "?x / ulp ?x \<in> \<int>"
  proof (cases "binade ?x = 53")
    case True
    with x1 have u: "ulp ?x = 2" by (simp add: ulp_normal pow2_def)
    from True binade_bracket [OF nz] have "pow2 53 \<le> \<bar>?x\<bar>" by simp
    with x53 have "\<bar>?x\<bar> = pow2 53" by linarith
    then have "?x = 2 * pow2 52 \<or> ?x = - (2 * pow2 52)"
      by (simp add: pow2_def abs_if split: if_splits)
    then have "?x / 2 = of_int (2 ^ 52) \<or> ?x / 2 = of_int (- (2 ^ 52))"
      by (auto simp: pow2_def)
    then show ?thesis unfolding u by (metis Ints_of_int)
  next
    case False
    with b53 have le: "binade ?x \<le> 52" by simp
    then have "pow2 (binade ?x - 52) = 1 / 2 ^ nat (52 - binade ?x)"
      by (cases "binade ?x = 52") (simp_all add: pow2_def)
    with x1 have "?x / ulp ?x = of_int (n * 2 ^ nat (52 - binade ?x))"
      by (simp add: ulp_normal)
    then show ?thesis by (simp only: Ints_of_int)
  qed
  then show ?thesis using big by (rule round64_fixed)
qed

lemma pow2_53: "pow2 53 = real_of_int (2 ^ 53)"
  by (simp add: pow2_def)

lemma MAX_VALUE_eq: "MAX_VALUE = (pow2 53 - 1) * pow2 971"
proof -
  have "pow2 1024 = pow2 53 * pow2 971"
    by (simp add: pow2_add [symmetric])
  then show ?thesis by (simp add: MAX_VALUE_def algebra_simps)
qed

lemma MAX_VALUE_lower: "pow2 1023 \<le> MAX_VALUE"
proof -
  have "pow2 1024 = 2 * pow2 1023"
    using pow2_add [of 1 1023] by (simp add: pow2_def)
  moreover have "pow2 971 \<le> pow2 1023" by (simp only: pow2_le_iff)
  ultimately show ?thesis by (simp add: MAX_VALUE_def)
qed

lemma MAX_VALUE_upper: "MAX_VALUE + 1 < pow2 1024"
proof -
  have "pow2 0 < pow2 971" by (simp only: pow2_less_iff)
  then show ?thesis by (simp add: MAX_VALUE_def pow2_def)
qed

lemma round64_normal:
  assumes "1 \<le> x"
  defines "r \<equiv> of_int (ties_to_even (x / pow2 (binade x - 52))) * pow2 (binade x - 52)"
  shows "pow2 (binade x) \<le> r" and "round64 x = (if pow2 1024 \<le> r then PosInf else Fin r)"
proof -
  from assms(1) have x1: "1 \<le> \<bar>x\<bar>" and pos: "0 < x" by simp_all
  let ?u = "pow2 (binade x - 52)"
  let ?k = "ties_to_even (x / ?u)"
  have u: "0 < ?u" by (rule pow2_pos)
  from assms(1) binade_bracket [of x] have "pow2 (binade x) \<le> x" by simp
  moreover have split: "pow2 (binade x) = pow2 52 * ?u"
    by (simp add: pow2_add [symmetric])
  ultimately have "pow2 52 \<le> x / ?u"
    using u by (simp add: pos_le_divide_eq)
  moreover have p52: "pow2 52 = real_of_int (2 ^ 52)" by (simp add: pow2_def)
  ultimately have "real_of_int (2 ^ 52) \<le> x / ?u" by (simp only:)
  then have "2 ^ 52 \<le> \<lfloor>x / ?u\<rfloor>" by (simp only: le_floor_iff)
  then have "2 ^ 52 \<le> ?k"
    using ties_to_even_lower [of "x / ?u"] by (rule order_trans)
  then have "real_of_int (2 ^ 52) \<le> of_int ?k" by (simp only: of_int_le_iff)
  then have "pow2 52 \<le> of_int ?k" by (simp only: p52)
  then have "pow2 52 * ?u \<le> of_int ?k * ?u"
    using u by (simp only: mult_le_cancel_right_pos)
  then show lower: "pow2 (binade x) \<le> r"
    by (simp only: split r_def)
  have "0 < pow2 (binade x)" by (rule pow2_pos)
  with lower have "\<bar>r\<bar> = r" by simp
  then show "round64 x = (if pow2 1024 \<le> r then PosInf else Fin r)"
    using pos x1 by (simp add: round64_def Let_def ulp_normal r_def)
qed

lemma round64_ge_1:
  assumes "1 \<le> x"
  shows "round64 x = PosInf \<or> (\<exists>r. round64 x = Fin r \<and> 1 \<le> r)"
proof -
  have "pow2 0 \<le> pow2 (binade x)"
    using binade_nonneg [of x] assms by (simp only: pow2_le_iff)
  then have "1 \<le> pow2 (binade x)" by simp
  with round64_normal [OF assms] show ?thesis
    by (cases "round64 x = PosInf") (auto split: if_splits)
qed

lemma double_le_MAX_VALUE:
  assumes "round64 x = Fin x"
  shows "\<bar>x\<bar> \<le> MAX_VALUE"
proof (cases "x = 0")
  case True
  have "0 \<le> pow2 1023" using pow2_pos [of 1023] by simp
  with MAX_VALUE_lower True show ?thesis by simp
next
  case False
  let ?k = "ties_to_even (x / ulp x)"
  from assms have fixed: "of_int ?k * ulp x = x" and small: "\<bar>x\<bar> < pow2 1024"
    by (auto simp: round64_def Let_def split: if_splits)
  from False small have b: "binade x < 1024" by (rule binade_upper)
  show ?thesis
  proof (cases "binade x = 1023")
    case True
    then have u: "ulp x = pow2 971" by (simp add: ulp_def)
    have "\<bar>real_of_int ?k\<bar> * pow2 971 < pow2 53 * pow2 971"
      using small fixed u pow2_pos [of 971]
      by (simp add: pow2_add [symmetric] abs_mult [symmetric])
    then have "\<bar>real_of_int ?k\<bar> < pow2 53"
      using pow2_pos [of 971] by (simp only: mult_less_cancel_right_pos)
    then have "real_of_int \<bar>?k\<bar> < real_of_int (2 ^ 53)"
      by (simp only: pow2_53 of_int_abs)
    then have "\<bar>?k\<bar> < 2 ^ 53" by (simp only: of_int_less_iff)
    then have "\<bar>?k\<bar> \<le> 2 ^ 53 - 1" by simp
    then have "real_of_int \<bar>?k\<bar> \<le> real_of_int (2 ^ 53 - 1)" by (simp only: of_int_le_iff)
    then have "\<bar>real_of_int ?k\<bar> \<le> pow2 53 - 1" by (simp add: pow2_def)
    then have "\<bar>real_of_int ?k\<bar> * pow2 971 \<le> (pow2 53 - 1) * pow2 971"
      using pow2_pos [of 971] by (simp only: mult_le_cancel_right_pos)
    moreover have "\<bar>x\<bar> = \<bar>real_of_int ?k\<bar> * pow2 971"
      by (metis abs_mult abs_of_pos fixed u pow2_pos)
    ultimately show ?thesis by (simp only: MAX_VALUE_eq)
  next
    case False
    with b have "binade x + 1 \<le> 1023" by simp
    then have "pow2 (binade x + 1) \<le> pow2 1023" by (simp only: pow2_le_iff)
    with binade_bracket [OF \<open>x \<noteq> 0\<close>] MAX_VALUE_lower show ?thesis by linarith
  qed
qed


lemma round64_succ_int:
  assumes int: "x \<in> \<int>" and lo: "1 \<le> x" and hi: "x \<le> MAX_VALUE"
  shows "\<exists>r. round64 (x + 1) = Fin r \<and> r \<in> \<int> \<and> 1 \<le> r \<and> r \<le> MAX_VALUE"
proof (cases "x + 1 \<le> pow2 53")
  case True
  from int obtain n where n: "x = of_int n" by (auto elim: Ints_cases)
  from True lo have "real_of_int \<bar>n + 1\<bar> \<le> real_of_int (2 ^ 53)"
    by (simp add: n pow2_53)
  then have "\<bar>n + 1\<bar> \<le> 2 ^ 53" by (simp only: of_int_le_iff)
  from round64_int [OF this] have "round64 (x + 1) = Fin (x + 1)"
    by (simp add: n)
  moreover have "x + 1 \<in> \<int>" using int by simp
  moreover have "pow2 53 \<le> pow2 1023" by (simp only: pow2_le_iff)
  with True MAX_VALUE_lower have "x + 1 \<le> MAX_VALUE" by linarith
  ultimately show ?thesis using lo by simp
next
  case False
  let ?x = "x + 1"
  let ?b = "binade ?x"
  let ?u = "pow2 (?b - 52)"
  let ?k = "ties_to_even (?x / ?u)"
  let ?r = "of_int ?k * ?u"
  have x1: "1 \<le> ?x" using lo by simp
  have u: "0 < ?u" by (rule pow2_pos)
  from False lo have "pow2 53 \<le> \<bar>?x\<bar>" by simp
  then have b53: "53 \<le> ?b" by (rule binade_lower)
  from hi MAX_VALUE_upper lo have "\<bar>?x\<bar> < pow2 1024" by simp
  moreover from lo have "?x \<noteq> 0" by simp
  ultimately have b1024: "?b < 1024" by (rule binade_upper [rotated])
  have uint: "?u = real_of_int (2 ^ nat (?b - 52))"
    using b53 by (simp add: pow2_def)
  have rint: "?r \<in> \<int>"
    unfolding uint by (metis Ints_of_int of_int_mult)
  have "?r \<le> MAX_VALUE"
  proof (cases "?b = 1023")
    case True
    then have u971: "?u = pow2 971" by simp
    have "?x \<le> (pow2 53 - 1) * pow2 971 + 1"
      using hi by (simp add: MAX_VALUE_eq)
    then have "?x / pow2 971 \<le> ((pow2 53 - 1) * pow2 971 + 1) / pow2 971"
      using pow2_pos [of 971] by (intro divide_right_mono) simp_all
    also have "\<dots> = (pow2 53 - 1) + 1 / pow2 971"
      using pow2_pos [of 971] by (simp add: add_divide_distrib)
    finally have "?x / pow2 971 \<le> (pow2 53 - 1) + 1 / pow2 971" .
    moreover have "pow2 1 < pow2 971" by (simp only: pow2_less_iff)
    then have "1 / pow2 971 < 1 / 2"
      using pow2_pos [of 971] by (simp add: pow2_def field_simps)
    moreover have "real_of_int (2 ^ 53 - 1) = pow2 53 - 1"
      by (simp add: pow2_def)
    ultimately have "?x / pow2 971 < real_of_int (2 ^ 53 - 1) + 1 / 2"
      by linarith
    then have "?x / ?u < real_of_int (2 ^ 53 - 1) + 1 / 2"
      by (simp only: u971)
    then have "?k \<le> 2 ^ 53 - 1" by (rule ties_to_even_upper)
    then have "real_of_int ?k \<le> real_of_int (2 ^ 53 - 1)" by (simp only: of_int_le_iff)
    then have "real_of_int ?k \<le> pow2 53 - 1" by (simp add: pow2_def)
    then have "?r \<le> (pow2 53 - 1) * ?u"
      using u by (simp only: mult_le_cancel_right_pos)
    then show ?thesis by (simp only: u971 MAX_VALUE_eq)
  next
    case False
    with b1024 have b: "?b + 1 \<le> 1023" by simp
    from x1 binade_bracket [of ?x] have "?x < pow2 (?b + 1)" by simp
    moreover have split53: "pow2 (?b + 1) = pow2 53 * ?u"
      using pow2_add [of 53 "?b - 52"] by (simp add: add.commute)
    ultimately have "?x / ?u < pow2 53"
      using u by (simp add: pos_divide_less_eq)
    then have "?x / ?u < real_of_int (2 ^ 53) + 1 / 2"
      unfolding pow2_53 by linarith
    then have "?k \<le> 2 ^ 53" by (rule ties_to_even_upper)
    then have "real_of_int ?k \<le> real_of_int (2 ^ 53)" by (simp only: of_int_le_iff)
    then have "real_of_int ?k \<le> pow2 53" by (simp only: pow2_53)
    then have "?r \<le> pow2 53 * ?u"
      using u by (simp only: mult_le_cancel_right_pos)
    then have "?r \<le> pow2 (?b + 1)"
      by (simp only: split53)
    moreover from b have "pow2 (?b + 1) \<le> pow2 1023" by (simp only: pow2_le_iff)
    ultimately show ?thesis using MAX_VALUE_lower by linarith
  qed
  moreover from this MAX_VALUE_upper have "\<not> pow2 1024 \<le> ?r" by linarith
  with round64_normal(2) [OF x1] have "round64 ?x = Fin ?r" by simp
  moreover have "1 \<le> ?r"
  proof -
    have "pow2 0 \<le> pow2 ?b" using b53 by (simp only: pow2_le_iff) 
    with round64_normal(1) [OF x1] show ?thesis by simp
  qed
  ultimately show ?thesis using rint by blast
qed

lemma round64_numeral:
  "numeral k \<le> (2::int) ^ 53 \<Longrightarrow> round64 (numeral k) = Fin (numeral k)"
  using round64_int [of "numeral k"] by simp

lemma round64_0: "round64 0 = Fin 0"
  using round64_int [of 0] by simp

lemma round64_1: "round64 1 = Fin 1"
  using round64_int [of 1] by simp

lemma round64_Ints:
  assumes "x \<in> \<int>" and "\<bar>x\<bar> \<le> pow2 53"
  shows "round64 x = Fin x"
proof -
  from assms(1) obtain n where n: "x = of_int n" by (auto elim: Ints_cases)
  from assms(2) have "real_of_int \<bar>n\<bar> \<le> real_of_int (2 ^ 53)"
    by (simp add: n pow2_53)
  then have "\<bar>n\<bar> \<le> 2 ^ 53" by (simp only: of_int_le_iff)
  from round64_int [OF this] show ?thesis by (simp add: n)
qed

lemma js_plus_num: "js_plus (num a) (num b) = Num (round64 (a + b))"
  by (simp add: js_plus_def ToNumber_def)

lemma js_times_num: "js_times (num a) (num b) = Num (round64 (a * b))"
  by (simp add: js_times_def ToNumber_def)

lemma js_le_num: "js_le (num a) (num b) \<longleftrightarrow> a \<le> b"
  by (simp add: js_le_def ToNumber_def)

lemma Number_isInteger_num:
  "Number_isInteger (num x) \<longleftrightarrow> x \<in> \<int> \<and> \<bar>x\<bar> \<le> MAX_VALUE"
  by (auto simp: Number_isInteger_def Ints_def)

lemma js_plus_1_positive:
  assumes "\<not> js_le q (num 0)"
  shows "\<not> js_le (js_plus q (num 1)) (num 0)"
proof (cases q)
  case Null
  with assms show ?thesis by (simp add: js_le_def ToNumber_def)
next
  case (Num d)
  show ?thesis
  proof (cases d)
    case (Fin x)
    with Num assms have "0 < x" by (simp add: js_le_def ToNumber_def)
    then have "1 \<le> x + 1" by simp
    from round64_ge_1 [OF this] Num Fin show ?thesis
      by (auto simp: js_le_def js_plus_def ToNumber_def)
  qed (use Num assms in \<open>simp_all add: js_le_def js_plus_def ToNumber_def\<close>)
qed

lemma js_plus_1_integer:
  assumes "Number_isInteger q" and "\<not> js_le q (num 0)"
  shows "Number_isInteger (js_plus q (num 1))"
proof -
  from assms(1) obtain x where q: "q = num x"
    by (auto simp: Number_isInteger_def split: number.splits double.splits)
  from assms q have x: "x \<in> \<int>" "\<bar>x\<bar> \<le> MAX_VALUE" "0 < x"
    by (simp_all add: Number_isInteger_num js_le_num)
  from x(1,3) have "1 \<le> x"
    by (auto elim!: Ints_cases)
  moreover from x(2,3) have "x \<le> MAX_VALUE" by simp
  ultimately obtain r where "round64 (x + 1) = Fin r" "r \<in> \<int>" "1 \<le> r" "r \<le> MAX_VALUE"
    using round64_succ_int [OF x(1)] by blast
  then show ?thesis
    by (simp add: q js_plus_num Number_isInteger_num)
qed

text \<open>Every integer among the binary64 values passes \<open>Number_isInteger\<close>.\<close>

lemma Number_isInteger_double:
  "round64 x = Fin x \<Longrightarrow> x \<in> \<int> \<Longrightarrow> Number_isInteger (num x)"
  by (simp add: Number_isInteger_num double_le_MAX_VALUE)

text \<open>Unfolding the rounding at a given value.\<close>

lemmas round64_eval =
  round64_def ulp_def binade_def compute_bitlen pow2_def ties_to_even_def Let_def

section \<open>The derived totals\<close>

lemma foldl_js_plus_exact:
  assumes "\<forall>item\<in>set xs. g item = num (v item) \<and> v item \<in> \<int> \<and> 0 \<le> v item"
    and "a \<in> \<int>" and "0 \<le> a" and "a + sum_list (map v xs) \<le> pow2 53"
  shows "foldl (\<lambda>total item. js_plus total (g item)) (num a) xs = num (a + sum_list (map v xs))"
  using assms
proof (induction xs arbitrary: a)
  case Nil
  then show ?case by simp
next
  case (Cons item xs)
  have rest: "0 \<le> sum_list (map v xs)"
    using Cons.prems(1) by (intro sum_list_nonneg) auto
  from Cons.prems have item: "g item = num (v item)" "v item \<in> \<int>" "0 \<le> v item"
    by simp_all
  have "a + v item \<in> \<int>" using Cons.prems(2) item(2) by simp
  moreover have "\<bar>a + v item\<bar> \<le> pow2 53"
    using Cons.prems(3,4) item(3) rest by simp
  ultimately have step: "js_plus (num a) (g item) = num (a + v item)"
    by (simp add: item(1) js_plus_num round64_Ints)
  have "foldl (\<lambda>total item. js_plus total (g item)) (num (a + v item)) xs
          = num (a + v item + sum_list (map v xs))"
    using Cons.prems item by (intro Cons.IH) (simp_all add: add.assoc)
  then show ?case by (simp add: step add.assoc)
qed

text \<open>
  C2, as the code has it. The totals are binary64 sums, added from the left in cart
  order. When every quantity is a non-negative integer and the quantities sum to at
  most \<open>2\<^sup>5\<^sup>3\<close>, \<open>totalItems\<close> is the sum of the quantity fields; when the prices are
  non-negative integers too and price times quantity sums to at most \<open>2\<^sup>5\<^sup>3\<close>,
  \<open>totalPrice\<close> is the sum of price times quantity.
\<close>

theorem totals_exact:
  "((\<forall>item\<in>set (cart w). Number_isInteger (quantity item) \<and> js_le (num 0) (quantity item)) \<and>
     sum_of_quantities w \<le> 2 ^ 53 \<longrightarrow>
       totalItems w = num (sum_of_quantities w)) \<and>
   ((\<forall>item\<in>set (cart w).
        Number_isInteger (quantity item) \<and> js_le (num 0) (quantity item) \<and>
        Number_isInteger (price item) \<and> js_le (num 0) (price item)) \<and>
     sum_of_price_times_quantity w \<le> 2 ^ 53 \<longrightarrow>
       totalPrice w = num (sum_of_price_times_quantity w))"
proof (intro conjI impI)
  assume a: "(\<forall>item\<in>set (cart w). Number_isInteger (quantity item) \<and> js_le (num 0) (quantity item)) \<and>
     sum_of_quantities w \<le> 2 ^ 53"
  have "\<forall>item\<in>set (cart w). quantity item = num (real_of (quantity item)) \<and>
          real_of (quantity item) \<in> \<int> \<and> 0 \<le> real_of (quantity item)"
  proof
    fix item assume "item \<in> set (cart w)"
    with a have i: "Number_isInteger (quantity item)" "js_le (num 0) (quantity item)" by auto
    from i(1) obtain x where "quantity item = num x"
      by (auto simp: Number_isInteger_def split: number.splits double.splits)
    with i show "quantity item = num (real_of (quantity item)) \<and>
          real_of (quantity item) \<in> \<int> \<and> 0 \<le> real_of (quantity item)"
      by (simp add: real_of_def Number_isInteger_num js_le_num)
  qed
  from foldl_js_plus_exact [OF this, of 0] a
  show "totalItems w = num (sum_of_quantities w)"
    by (simp add: totalItems_def sum_of_quantities_def pow2_53)
next
  assume a: "(\<forall>item\<in>set (cart w).
        Number_isInteger (quantity item) \<and> js_le (num 0) (quantity item) \<and>
        Number_isInteger (price item) \<and> js_le (num 0) (price item)) \<and>
     sum_of_price_times_quantity w \<le> 2 ^ 53"
  let ?v = "\<lambda>item::CartItem. real_of (price item) * real_of (quantity item)"
  have nonneg: "\<forall>item\<in>set (cart w). ?v item \<in> \<int> \<and> 0 \<le> ?v item \<and>
      price item = num (real_of (price item)) \<and> quantity item = num (real_of (quantity item))"
  proof
    fix item assume "item \<in> set (cart w)"
    with a have i: "Number_isInteger (quantity item)" "js_le (num 0) (quantity item)"
      "Number_isInteger (price item)" "js_le (num 0) (price item)" by auto
    from i(1) obtain x where x: "quantity item = num x"
      by (auto simp: Number_isInteger_def split: number.splits double.splits)
    from i(3) obtain y where y: "price item = num y"
      by (auto simp: Number_isInteger_def split: number.splits double.splits)
    from i x y show "?v item \<in> \<int> \<and> 0 \<le> ?v item \<and>
      price item = num (real_of (price item)) \<and> quantity item = num (real_of (quantity item))"
      by (simp add: real_of_def Number_isInteger_num js_le_num)
  qed
  have "\<forall>item\<in>set (cart w). js_times (price item) (quantity item) = num (?v item) \<and>
          ?v item \<in> \<int> \<and> 0 \<le> ?v item"
  proof
    fix item assume m: "item \<in> set (cart w)"
    have "sum_list (map ?v (cart w)) = ?v item + sum_list (map ?v (remove1 item (cart w)))"
      using m by (simp add: sum_list_map_remove1)
    moreover have "0 \<le> sum_list (map ?v (remove1 item (cart w)))"
      using nonneg by (intro sum_list_nonneg) (auto dest: notin_set_remove1)
    ultimately have "?v item \<le> pow2 53"
      using a by (simp add: sum_of_price_times_quantity_def pow2_53)
    with nonneg m have "round64 (?v item) = Fin (?v item)"
      by (intro round64_Ints) auto
    moreover from nonneg m have "js_times (price item) (quantity item) = Num (round64 (?v item))"
      by (metis js_times_num)
    ultimately show "js_times (price item) (quantity item) = num (?v item) \<and>
          ?v item \<in> \<int> \<and> 0 \<le> ?v item"
      using nonneg m by simp
  qed
  from foldl_js_plus_exact [OF this, of 0] a
  show "totalPrice w = num (sum_of_price_times_quantity w)"
    by (simp add: totalPrice_def sum_of_price_times_quantity_def pow2_53)
qed

text \<open>The sample cart: quantities 1, 3 and 7 at the prices 2, 5 and 2.\<close>

theorem totals_exact_witness:
  "totalItems stocked = num 11 \<and> sum_of_quantities stocked = 11 \<and>
   totalPrice stocked = num 31 \<and> sum_of_price_times_quantity stocked = 31"
  using totals_exact [of stocked]
  by (simp add: sum_of_quantities_def sum_of_price_times_quantity_def stocked_def
        browser_def mount_def line_def pen_def ink_def real_of_def Number_isInteger_num
        js_le_num MAX_VALUE_def pow2_def)

text \<open>
  The claim as the specification words it holds of no rounding arithmetic. With the
  quantities \<open>2\<^sup>5\<^sup>3\<close>, 1 and 1, line 84 adds 1 to \<open>2\<^sup>5\<^sup>3\<close> twice and gets \<open>2\<^sup>5\<^sup>3\<close> both
  times, while the quantities sum to \<open>2\<^sup>5\<^sup>3 + 2\<close>. With the prices 0.1 and 0.2 at
  quantity 1, lines 87 to 90 give 0.30000000000000004, which is not the sum of the two
  prices.
\<close>

theorem rounded_totals_counterexample:
  "totalItems heavy = num 9007199254740992 \<and>
   sum_of_quantities heavy = 9007199254740994 \<and>
   totalPrice change = num (5404319552844596 / 2 ^ 54) \<and>
   sum_of_price_times_quantity change = 10808639105689191 / 2 ^ 55"
proof -
  have a: "round64 9007199254740993 = Fin 9007199254740992"
    by (simp add: round64_eval)
  have b: "round64 9007199254740992 = Fin 9007199254740992"
    by (simp add: round64_numeral)
  have c: "round64 tenth = Fin tenth" "round64 fifth = Fin fifth"
    by (simp_all add: round64_eval tenth_def fifth_def)
  have d: "round64 (tenth + fifth) = Fin (5404319552844596 / 2 ^ 54)"
    by (simp add: round64_eval tenth_def fifth_def)
  have "totalItems heavy = num 9007199254740992"
    by (simp add: totalItems_def heavy_def browser_def mount_def line_def js_plus_num a b)
  moreover have "sum_of_quantities heavy = 9007199254740994"
    by (simp add: sum_of_quantities_def heavy_def browser_def mount_def line_def real_of_def)
  moreover have "totalPrice change = num (5404319552844596 / 2 ^ 54)"
    by (simp add: totalPrice_def change_def browser_def mount_def line_def js_plus_num
          js_times_num c d)
  moreover have "sum_of_price_times_quantity change = 10808639105689191 / 2 ^ 55"
    by (simp add: sum_of_price_times_quantity_def change_def browser_def mount_def line_def
          real_of_def tenth_def fifth_def)
  ultimately show ?thesis by (simp only: simp_thms)
qed

section \<open>Adding a product\<close>

lemma findIndex_lower: "- 1 \<le> findIndex P xs"
  by (induction xs) (auto simp: Let_def)

lemma findIndex_none: "findIndex P xs = - 1 \<longleftrightarrow> (\<forall>x\<in>set xs. \<not> P x)"
proof (induction xs)
  case Nil
  show ?case by simp
next
  case (Cons x xs)
  have "findIndex P xs + 1 \<noteq> - 1"
    using findIndex_lower [of P xs] by arith
  with Cons show ?case by (auto simp: Let_def)
qed

lemma findIndex_first:
  "findIndex P xs \<noteq> - 1 \<Longrightarrow>
     nat (findIndex P xs) < length xs \<and> P (xs ! nat (findIndex P xs)) \<and>
     (\<forall>j < nat (findIndex P xs). \<not> P (xs ! j))"
proof (induction xs)
  case Nil
  then show ?case by simp
next
  case (Cons x xs)
  show ?case
  proof (cases "P x")
    case True
    then show ?thesis by simp
  next
    case False
    with Cons.prems have ne: "findIndex P xs \<noteq> - 1"
      by (auto simp: Let_def split: if_splits)
    have lo: "0 \<le> findIndex P xs"
      using findIndex_lower [of P xs] ne by arith
    then have n: "nat (findIndex P xs + 1) = Suc (nat (findIndex P xs))"
      by arith
    from Cons.IH [OF ne] False ne show ?thesis
      by (auto simp: Let_def n less_Suc_eq_0_disj)
  qed
qed

lemma addToCart_present:
  assumes "id' p \<noteq> []" and "\<exists>item\<in>set (cart w). id' item = id' p"
  shows "\<exists>k < length (cart w).
           id' (cart w ! k) = id' p \<and> (\<forall>j < k. id' (cart w ! j) \<noteq> id' p) \<and>
           addToCart (Some p) w =
             w\<lparr>cart := (cart w)[k := (cart w ! k)
                              \<lparr>quantity := js_plus (quantity (cart w ! k)) (num 1)\<rparr>],
               isCartOpen := True\<rparr>"
proof -
  let ?P = "\<lambda>item::CartItem. id' item = id' p"
  from assms(2) have ne: "findIndex ?P (cart w) \<noteq> - 1"
    by (simp add: findIndex_none)
  from findIndex_first [of ?P, OF ne] assms(1) ne show ?thesis
    by (intro exI [of _ "nat (findIndex ?P (cart w))"]) (simp add: addToCart_def Let_def)
qed

lemma addToCart_absent:
  assumes "id' p \<noteq> []" and "\<forall>item\<in>set (cart w). id' item \<noteq> id' p"
  shows "addToCart (Some p) w = w\<lparr>cart := cart w @ [line p (num 1)], isCartOpen := True\<rparr>"
  using assms by (simp add: addToCart_def Let_def findIndex_none line_def)

lemma addToCart_rejected:
  "product = None \<or> id' (the product) = [] \<Longrightarrow>
     addToCart product w = console_error InvalidProduct w"
  by (auto simp: addToCart_def split: option.splits)

text \<open>
  C3, as the code has it. For a product with a non-empty id: when the cart holds an
  entry with that id, \<open>addToCart\<close> replaces the quantity of the first such entry by the
  binary64 sum of that quantity and 1, which is the quantity plus one whenever the
  quantity is an integer of magnitude below \<open>2\<^sup>5\<^sup>3\<close>, and changes nothing else in the
  entry or in the cart, whatever the other fields of the product are; when it holds
  none, the cart gains one entry at its end, made of the product's fields with quantity
  one. Either way \<open>isCartOpen\<close> is true afterwards, and nothing else of the world
  changes.
\<close>

theorem addToCart_effect:
  assumes "id' p \<noteq> []"
  shows "if \<exists>item\<in>set (cart w). id' item = id' p
         then \<exists>k < length (cart w).
                id' (cart w ! k) = id' p \<and> (\<forall>j < k. id' (cart w ! j) \<noteq> id' p) \<and>
                addToCart (Some p) w =
                  w\<lparr>cart := (cart w)[k := (cart w ! k)
                                   \<lparr>quantity := js_plus (quantity (cart w ! k)) (num 1)\<rparr>],
                    isCartOpen := True\<rparr> \<and>
                (\<forall>n::int. quantity (cart w ! k) = num (of_int n) \<and> \<bar>n\<bar> < 2 ^ 53 \<longrightarrow>
                   js_plus (quantity (cart w ! k)) (num 1) = num (of_int n + 1))
         else addToCart (Some p) w =
                w\<lparr>cart := cart w @ [\<lparr>id' = id' p, name = name p, price = price p,
                                      description = description p, image' = image' p,
                                      quantity = num 1\<rparr>],
                  isCartOpen := True\<rparr>"
proof (cases "\<exists>item\<in>set (cart w). id' item = id' p")
  case True
  have exact: "js_plus (num (of_int n)) (num 1) = num (of_int n + 1)" if "\<bar>n\<bar> < 2 ^ 53" for n :: int
  proof -
    from that have "\<bar>n + 1\<bar> \<le> 2 ^ 53" by simp
    from round64_int [OF this] show ?thesis by (simp add: js_plus_num)
  qed
  from addToCart_present [OF assms True] obtain k where
    "k < length (cart w)" "id' (cart w ! k) = id' p" "\<forall>j < k. id' (cart w ! j) \<noteq> id' p"
    "addToCart (Some p) w =
       w\<lparr>cart := (cart w)[k := (cart w ! k)
                        \<lparr>quantity := js_plus (quantity (cart w ! k)) (num 1)\<rparr>],
         isCartOpen := True\<rparr>"
    by blast
  with True exact show ?thesis
    by (auto intro!: exI [of _ k])
next
  case False
  with addToCart_absent [OF assms, of w] show ?thesis by (simp add: line_def)
qed

text \<open>
  Three adds: an id held by the second entry, the id of the first entry under another
  name and price, and an id the cart does not hold.
\<close>

theorem addToCart_effect_witness:
  "id' ink \<noteq> [] \<and> id' pen \<noteq> [] \<and>
   addToCart (Some ink) (browser\<lparr>cart := [line pen (num 1), line ink (num 3)]\<rparr>) =
     browser\<lparr>cart := [line pen (num 1), line ink (num 4)], isCartOpen := True\<rparr> \<and>
   addToCart (Some (pen\<lparr>name := ''Pencil'', price := num 9\<rparr>))
     (browser\<lparr>cart := [line pen (num 1), line ink (num 3)]\<rparr>) =
     browser\<lparr>cart := [line pen (num 2), line ink (num 3)], isCartOpen := True\<rparr> \<and>
   addToCart (Some ink) (browser\<lparr>cart := [line pen (num 1)]\<rparr>) =
     browser\<lparr>cart := [line pen (num 1), line ink (num 1)], isCartOpen := True\<rparr>"
  using addToCart_effect [of ink "browser\<lparr>cart := [line pen (num 1), line ink (num 3)]\<rparr>"]
    addToCart_effect [of "pen\<lparr>name := ''Pencil'', price := num 9\<rparr>"
      "browser\<lparr>cart := [line pen (num 1), line ink (num 3)]\<rparr>"]
    addToCart_effect [of ink "browser\<lparr>cart := [line pen (num 1)]\<rparr>"]
  by (simp add: browser_def mount_def addToCart_def pen_def ink_def line_def js_plus_num
        round64_numeral)

text \<open>
  The claim as the specification words it says that the quantity grows by one. After
  \<open>updateQuantity("p1", 9007199254740992)\<close> the sum of line 109 rounds back to
  \<open>2\<^sup>5\<^sup>3\<close>: the entry keeps its quantity.
\<close>

theorem saturated_quantity_counterexample:
  "cart (perform_all [AddToCart (Some pen), UpdateQuantity ''p1'' (num 9007199254740992)]
          browser) = [line pen (num 9007199254740992)] \<and>
   cart (perform_all [AddToCart (Some pen), UpdateQuantity ''p1'' (num 9007199254740992),
                      AddToCart (Some pen)] browser) = [line pen (num 9007199254740992)]"
proof -
  have "round64 9007199254740993 = Fin 9007199254740992"
    by (simp add: round64_eval)
  then show ?thesis
    by (simp add: perform_all_def browser_def mount_def addToCart_def updateQuantity_def
          pen_def line_def js_plus_num js_le_num)
qed

text \<open>
  C8. An absent product, or one whose id is empty, changes neither the cart nor
  \<open>isCartOpen\<close>: the call logs one line and returns.
\<close>

theorem addToCart_rejects:
  assumes "product = None \<or> (\<exists>p. product = Some p \<and> id' p = [])"
  shows "cart (addToCart product w) = cart w \<and>
         isCartOpen (addToCart product w) = isCartOpen w \<and>
         addToCart product w = w\<lparr>console := console w @ [InvalidProduct]\<rparr>"
  using assms by (auto simp: addToCart_def console_error_def)

text \<open>Both rejections on a provider with a non-empty cart.\<close>

text \<open>Both rejections on a provider with a non-empty cart.\<close>

theorem addToCart_rejects_witness:
  "addToCart None stocked = stocked\<lparr>console := [InvalidProduct]\<rparr> \<and>
   addToCart (Some (pen\<lparr>id' := []\<rparr>)) stocked = stocked\<lparr>console := [InvalidProduct]\<rparr> \<and>
   cart (addToCart (Some (pen\<lparr>id' := []\<rparr>)) stocked) = cart stocked \<and>
   isCartOpen (addToCart (Some (pen\<lparr>id' := []\<rparr>)) stocked) = isCartOpen stocked"
  using addToCart_rejects [of None stocked]
    addToCart_rejects [of "Some (pen\<lparr>id' := []\<rparr>)" stocked]
  by (simp add: stocked_def browser_def mount_def)

section \<open>The invariant of the cart\<close>

lemma perform_all_Cons: "perform_all (c # cs) w = perform_all cs (perform c w)"
  by (simp add: perform_all_def)

lemma ids_bump:
  "k < length c \<Longrightarrow> map id' (c[k := (c ! k)\<lparr>quantity := q\<rparr>]) = map id' c"
  by (simp add: map_update list_update_same_conv)

lemma ids_updateQuantity:
  "map id' (map (\<lambda>item. if id' item = i then item\<lparr>quantity := q\<rparr> else item) c) = map id' c"
  by (induction c) auto

lemma addToCart_cases:
  obtains (rejected) "cart (addToCart product w) = cart w"
  | (bumped) k where "k < length (cart w)"
      "cart (addToCart product w) =
         (cart w)[k := (cart w ! k)\<lparr>quantity := js_plus (quantity (cart w ! k)) (num 1)\<rparr>]"
  | (appended) p where "id' p \<notin> id' ` set (cart w)"
      "cart (addToCart product w) = cart w @ [line p (num 1)]"
proof (cases "product = None \<or> id' (the product) = []")
  case True
  then have "cart (addToCart product w) = cart w"
    by (simp add: addToCart_rejected console_error_def)
  then show ?thesis by (rule rejected)
next
  case False
  then obtain p where p: "product = Some p" "id' p \<noteq> []" by auto
  show ?thesis
  proof (cases "\<exists>item\<in>set (cart w). id' item = id' p")
    case True
    from addToCart_present [OF p(2) True] p(1) show ?thesis
      by (auto intro: bumped)
  next
    case False
    then have "id' p \<notin> id' ` set (cart w)" by force
    moreover from False have "cart (addToCart product w) = cart w @ [line p (num 1)]"
      by (simp add: p addToCart_absent)
    ultimately show ?thesis by (rule appended)
  qed
qed

lemma unique_ids_perform:
  assumes "distinct (map id' (cart w))"
  shows "distinct (map id' (cart (perform c w)))"
proof (cases c)
  case (AddToCart product)
  show ?thesis
  proof (cases product w rule: addToCart_cases)
    case rejected
    with assms AddToCart show ?thesis by simp
  next
    case (bumped k)
    with assms AddToCart show ?thesis by (simp add: ids_bump)
  next
    case (appended p)
    with assms AddToCart show ?thesis by (simp add: line_def)
  qed
next
  case (RemoveFromCart i)
  with assms show ?thesis
    by (simp add: removeFromCart_def distinct_map_filter)
next
  case (UpdateQuantity i q)
  with assms show ?thesis
    by (simp add: updateQuantity_def removeFromCart_def distinct_map_filter ids_updateQuantity
          del: map_map)
qed

lemma quantities_perform:
  assumes inv: "\<forall>item\<in>set (cart w). Q (quantity item)"
    and one: "Q (num 1)"
    and step: "\<And>q. Q q \<Longrightarrow> Q (js_plus q (num 1))"
    and upd: "\<And>i q. c = UpdateQuantity i q \<Longrightarrow> \<not> js_le q (num 0) \<Longrightarrow> Q q"
  shows "\<forall>item\<in>set (cart (perform c w)). Q (quantity item)"
proof (cases c)
  case (AddToCart product)
  show ?thesis
  proof (cases product w rule: addToCart_cases)
    case rejected
    with inv AddToCart show ?thesis by simp
  next
    case (bumped k)
    let ?x = "(cart w ! k)\<lparr>quantity := js_plus (quantity (cart w ! k)) (num 1)\<rparr>"
    from bumped(1) inv have "Q (quantity (cart w ! k))" by simp
    then have "Q (quantity ?x)" by (simp add: step)
    moreover have "set ((cart w)[k := ?x]) \<subseteq> insert ?x (set (cart w))"
      by (rule set_update_subset_insert)
    ultimately show ?thesis
      using inv AddToCart bumped(2) by auto
  next
    case (appended p)
    with inv one AddToCart show ?thesis by (simp add: line_def)
  qed
next
  case (RemoveFromCart i)
  with inv show ?thesis by (simp add: removeFromCart_def)
next
  case (UpdateQuantity i q)
  with inv upd [of i q] show ?thesis
    by (auto simp: updateQuantity_def removeFromCart_def)
qed

lemma perform_all_invariant:
  assumes "\<forall>item\<in>set (cart w). Q (quantity item)"
    and "Q (num 1)"
    and "\<And>q. Q q \<Longrightarrow> Q (js_plus q (num 1))"
    and "\<And>i q. UpdateQuantity i q \<in> set cs \<Longrightarrow> \<not> js_le q (num 0) \<Longrightarrow> Q q"
  shows "\<forall>item\<in>set (cart (perform_all cs w)). Q (quantity item)"
  using assms(1,4)
proof (induction cs arbitrary: w)
  case Nil
  then show ?case by (simp add: perform_all_def)
next
  case (Cons c cs)
  have "\<forall>item\<in>set (cart (perform c w)). Q (quantity item)"
  proof (rule quantities_perform)
    show "\<forall>item\<in>set (cart w). Q (quantity item)" by (rule Cons.prems(1))
    show "Q (num 1)" by (rule assms(2))
    show "Q (js_plus q (num 1))" if "Q q" for q using that by (rule assms(3))
    show "Q q" if "c = UpdateQuantity i q" and "\<not> js_le q (num 0)" for i q
      using that Cons.prems(2) [of i q] by simp
  qed
  then have "\<forall>item\<in>set (cart (perform_all cs (perform c w))). Q (quantity item)"
  proof (rule Cons.IH)
    show "Q q" if "UpdateQuantity i q \<in> set cs" and "\<not> js_le q (num 0)" for i q
      using that Cons.prems(2) [of i q] by simp
  qed
  then show ?case by (simp add: perform_all_Cons)
qed

lemma perform_all_unique_ids:
  "distinct (map id' (cart w)) \<Longrightarrow> distinct (map id' (cart (perform_all cs w)))"
proof (induction cs arbitrary: w)
  case Nil
  then show ?case by (simp add: perform_all_def)
next
  case (Cons c cs)
  from Cons.prems have "distinct (map id' (cart (perform c w)))"
    by (rule unique_ids_perform)
  then show ?case by (simp add: perform_all_Cons Cons.IH)
qed

text \<open>
  C1, as the code has it. From an empty cart, after any sequence of \<open>addToCart\<close>,
  \<open>removeFromCart\<close> and \<open>updateQuantity\<close> calls, no two entries of the cart share an
  id and no entry has a quantity \<open>\<le> 0\<close>; every quantity is an integer when every
  \<open>updateQuantity\<close> call of the sequence was given an integer.
\<close>

theorem ids_unique_quantities_positive:
  assumes "cart w = []"
  shows "distinct (map id' (cart (perform_all cs w))) \<and>
         (\<forall>item\<in>set (cart (perform_all cs w)). \<not> js_le (quantity item) (num 0)) \<and>
         ((\<forall>i q. UpdateQuantity i q \<in> set cs \<longrightarrow> Number_isInteger q) \<longrightarrow>
            (\<forall>item\<in>set (cart (perform_all cs w)). Number_isInteger (quantity item)))"
proof (intro conjI impI)
  show "distinct (map id' (cart (perform_all cs w)))"
    using assms by (intro perform_all_unique_ids) simp
  show "\<forall>item\<in>set (cart (perform_all cs w)). \<not> js_le (quantity item) (num 0)"
    using assms
    by (intro perform_all_invariant [where Q = "\<lambda>q. \<not> js_le q (num 0)"])
      (simp_all add: js_le_num js_plus_1_positive)
  assume ints: "\<forall>i q. UpdateQuantity i q \<in> set cs \<longrightarrow> Number_isInteger q"
  have one: "Number_isInteger (num 1)"
    using MAX_VALUE_lower pow2_le_iff [of 0 1023] by (simp add: Number_isInteger_num)
  have "\<forall>item\<in>set (cart (perform_all cs w)).
          Number_isInteger (quantity item) \<and> \<not> js_le (quantity item) (num 0)"
    using assms ints one
    by (intro perform_all_invariant
          [where Q = "\<lambda>q. Number_isInteger q \<and> \<not> js_le q (num 0)"])
      (simp_all add: js_le_num js_plus_1_positive js_plus_1_integer)
  then show "\<forall>item\<in>set (cart (perform_all cs w)). Number_isInteger (quantity item)"
    by simp
qed

text \<open>
  The theorem at a run of six calls on a fresh provider: two products are added, one of
  them twice, a quantity is set, and a rejected add and a remove of an absent id change
  nothing.
\<close>

theorem ids_unique_quantities_positive_witness:
  "cart browser = [] \<and>
   cart (perform_all
          [AddToCart (Some pen), AddToCart (Some ink), AddToCart (Some pen),
           UpdateQuantity ''p2'' (num 4), AddToCart None, RemoveFromCart ''p3''] browser)
     = [line pen (num 2), line ink (num 4)] \<and>
   distinct (map id' [line pen (num 2), line ink (num 4)]) \<and>
   list_all (\<lambda>item. \<not> js_le (quantity item) (num 0) \<and> Number_isInteger (quantity item))
     [line pen (num 2), line ink (num 4)]"
  using ids_unique_quantities_positive [of browser
          "[AddToCart (Some pen), AddToCart (Some ink), AddToCart (Some pen),
           UpdateQuantity ''p2'' (num 4), AddToCart None, RemoveFromCart ''p3'']"]
  by (simp add: perform_all_def browser_def mount_def addToCart_def updateQuantity_def
        removeFromCart_def console_error_def pen_def ink_def line_def js_plus_num js_le_num
        round64_numeral Number_isInteger_num MAX_VALUE_def pow2_def)

text \<open>
  The claim as the specification words it asks for a positive integer. \<open>updateQuantity\<close>
  stores any quantity above zero as it is given: after one add, line 132 lets the
  quantity one half through and line 139 writes it into the entry.
\<close>

theorem fractional_quantity_counterexample:
  "cart browser = [] \<and>
   cart (perform_all [AddToCart (Some pen), UpdateQuantity ''p1'' (num (1 / 2))] browser)
     = [line pen (num (1 / 2))] \<and>
   \<not> Number_isInteger (quantity (line pen (num (1 / 2))))"
  by (simp add: perform_all_def browser_def mount_def addToCart_def updateQuantity_def
        pen_def line_def js_le_num Number_isInteger_def)

section \<open>Removing and updating\<close>

text \<open>
  C9. \<open>removeFromCart\<close> with a non-empty id leaves no entry with that id, however many
  the cart held, and keeps the other entries in their order.
\<close>

theorem removeFromCart_removes_all:
  assumes "i \<noteq> []"
  shows "(\<forall>item\<in>set (cart (removeFromCart i w)). id' item \<noteq> i) \<and>
         cart (removeFromCart i w) = filter (\<lambda>item. id' item \<noteq> i) (cart w)"
  using assms by (simp add: removeFromCart_def)

text \<open>A cart that holds the removed id twice.\<close>

theorem removeFromCart_removes_all_witness:
  "''p1'' \<noteq> [] \<and> cart stocked = [line pen (num 1), line ink (num 3), line pen (num 7)] \<and>
   cart (removeFromCart ''p1'' stocked) = [line ink (num 3)]"
  using removeFromCart_removes_all [of "''p1''" stocked]
  by (simp add: stocked_def browser_def mount_def pen_def ink_def line_def)

text \<open>
  C4. With a non-empty id and a quantity \<open>\<le> 0\<close>, \<open>updateQuantity\<close> ends in the very
  world that \<open>removeFromCart\<close> ends in.
\<close>

theorem updateQuantity_nonpositive:
  "i \<noteq> [] \<Longrightarrow> js_le q (num 0) \<Longrightarrow> updateQuantity i q w = removeFromCart i w"
  by (simp add: updateQuantity_def)

text \<open>\<open>updateQuantity("p1", 0)\<close> on a cart that holds \<open>p1\<close>.\<close>

theorem updateQuantity_nonpositive_witness:
  "''p1'' \<noteq> [] \<and> js_le (num 0) (num 0) \<and>
   updateQuantity ''p1'' (num 0) stocked = removeFromCart ''p1'' stocked \<and>
   updateQuantity ''p1'' (num 0) stocked = stocked\<lparr>cart := [line ink (num 3)]\<rparr>"
  using updateQuantity_nonpositive [of "''p1''" "num 0" stocked]
  by (simp add: stocked_def browser_def mount_def removeFromCart_def pen_def ink_def
        line_def js_le_num)

section \<open>The flag of the cart panel\<close>

text \<open>
  C10. \<open>removeFromCart\<close>, \<open>updateQuantity\<close> and \<open>clearCart\<close> leave \<open>isCartOpen\<close> as
  it is, for every world and all arguments; \<open>setIsCartOpen\<close> sets it to its argument.
\<close>

theorem isCartOpen_frame:
  "isCartOpen (removeFromCart i w) = isCartOpen w \<and>
   isCartOpen (updateQuantity i q w) = isCartOpen w \<and>
   isCartOpen (clearCart w) = isCartOpen w \<and>
   isCartOpen (setIsCartOpen b w) = b"
  by (simp add: removeFromCart_def updateQuantity_def clearCart_def removeItem_def
        storage_access_def console_error_def setIsCartOpen_def split: list.splits)

section \<open>Hydration\<close>

lemma storage_access_cases:
  obtains (no_window) "\<not> window_defined w" "storage_access w = (Some ReferenceError, w)"
  | (quiet) "window_defined w" "faults w = []" "storage_access w = (None, w)"
  | (refused) fs where "window_defined w" "faults w = True # fs"
      "storage_access w = (Some DOMException, w\<lparr>faults := fs\<rparr>)"
  | (granted) fs where "window_defined w" "faults w = False # fs"
      "storage_access w = (None, w\<lparr>faults := fs\<rparr>)"
  by (cases "faults w") (auto simp: storage_access_def)

text \<open>
  C5, as the code has it. A provider with an empty cart starts in a browser whose key
  \<open>cart\<close> holds a non-empty text that \<open>JSON.parse\<close> rejects or decodes to something
  other than an array, and whose storage lets the read and the erase through. Then
  hydration ends with the cart empty, the key erased, one line logged and \<open>loaded\<close>
  set; the function returns a world in every case, so nothing reaches the caller.
\<close>

theorem hydrate_discards_corrupt:
  assumes "window_defined w" and "cart w = []" and "True \<notin> set (take 2 (faults w))"
    and "localStorage w ''cart'' = Some s" and "s \<noteq> []"
    and "JSON_parse s = None \<or> JSON_parse s = Some NonArray"
  shows "cart (hydrate JSON_parse w) = [] \<and>
         localStorage (hydrate JSON_parse w) ''cart'' = None \<and>
         console (hydrate JSON_parse w) =
           console w @ [if JSON_parse s = None then LoadFailed SyntaxError else InvalidFormat] \<and>
         loaded (hydrate JSON_parse w) \<and>
         isCartOpen (hydrate JSON_parse w) = isCartOpen w"
proof (cases "faults w")
  case Nil
  with assms show ?thesis
    by (auto simp: hydrate_def hydrate_try_def getItem_def removeItem_def storage_access_def
          console_error_def)
next
  case (Cons a fs)
  note outer = Cons
  show ?thesis
  proof (cases fs)
    case Nil
    with outer assms show ?thesis
      by (auto simp: hydrate_def hydrate_try_def getItem_def removeItem_def storage_access_def
            console_error_def)
  next
    case (Cons b fs')
    with outer assms show ?thesis
      by (auto simp: hydrate_def hydrate_try_def getItem_def removeItem_def storage_access_def
            console_error_def)
  qed
qed

text \<open>A stored \<open>42\<close>, which is JSON but no array, and a stored bare word, which is no JSON.\<close>

theorem hydrate_discards_corrupt_witness:
  "hydrate (map_of [(''42'', NonArray)]) (mount True [''cart'' \<mapsto> ''42''] [False]) =
     (mount True Map.empty [])\<lparr>loaded := True, console := [InvalidFormat]\<rparr> \<and>
   hydrate (map_of [(''42'', NonArray)]) (mount True [''cart'' \<mapsto> ''not-an-array''] []) =
     (mount True Map.empty [])\<lparr>loaded := True, console := [LoadFailed SyntaxError]\<rparr>"
  using hydrate_discards_corrupt [of "mount True [''cart'' \<mapsto> ''42''] [False]" "''42''"
          "map_of [(''42'', NonArray)]"]
    hydrate_discards_corrupt [of "mount True [''cart'' \<mapsto> ''not-an-array''] []" "''not-an-array''"
          "map_of [(''42'', NonArray)]"]
  by (simp add: mount_def hydrate_def hydrate_try_def getItem_def removeItem_def
        storage_access_def console_error_def)

text \<open>
  The claim as the specification words it covers every unparsable text. The empty text
  is one (\<open>JSON.parse("")\<close> throws), and a key can hold it, but \<open>if (savedCart)\<close> at
  line 47 is false for it: neither \<open>JSON.parse\<close> nor \<open>removeItem\<close> is called and the
  key stays.
\<close>

theorem empty_text_counterexample:
  "map_of [(''42'', NonArray)] '''' = None \<and>
   hydrate (map_of [(''42'', NonArray)]) (mount True [''cart'' \<mapsto> ''''] []) =
     (mount True [''cart'' \<mapsto> ''''] [])\<lparr>loaded := True\<rparr> \<and>
   localStorage (hydrate (map_of [(''42'', NonArray)]) (mount True [''cart'' \<mapsto> ''''] [])) ''cart''
     = Some ''''"
  by (simp add: mount_def hydrate_def hydrate_try_def getItem_def storage_access_def)

section \<open>Persisting and hydrating again\<close>









section \<open>Clearing the cart\<close>

text \<open>
  C7, as the code has it. After \<open>clearCart\<close> the cart is empty in every case. When the
  erase goes through, the key \<open>cart\<close> is absent and nothing is logged. When the erase
  throws, the failure is logged, the storage is as it was, and the key is rewritten with
  the encoding of the empty cart by the persist effect that follows, provided
  hydration has completed and that write goes through.
\<close>

theorem clearCart_effect:
  "cart (clearCart w) = [] \<and>
   (case fst (storage_access w) of
      None \<Rightarrow>
        localStorage (clearCart w) = (localStorage w)(''cart'' := None) \<and>
        console (clearCart w) = console w
    | Some err \<Rightarrow>
        localStorage (clearCart w) = localStorage w \<and>
        console (clearCart w) = console w @ [ClearFailed err] \<and>
        (loaded w \<and> fst (storage_access (clearCart w)) = None \<longrightarrow>
           localStorage (persist JSON_stringify (clearCart w)) ''cart''
             = Some (JSON_stringify [])))"
  by (cases w rule: storage_access_cases)
    (auto simp: clearCart_def removeItem_def persist_def setItem_def storage_access_def
       console_error_def split: list.splits)

text \<open>
  An erase that goes through, and an erase that throws before a write that goes through.
\<close>

theorem clearCart_effect_witness:
  "clearCart saved = stocked\<lparr>cart := []\<rparr> \<and>
   clearCart (saved\<lparr>faults := [True]\<rparr>) =
     saved\<lparr>cart := [], console := [ClearFailed DOMException]\<rparr> \<and>
   localStorage (persist (\<lambda>c. ''[]'') (clearCart (saved\<lparr>faults := [True]\<rparr>))) ''cart''
     = Some ''[]''"
  using clearCart_effect [of saved "\<lambda>c. ''[]''"]
    clearCart_effect [of "saved\<lparr>faults := [True]\<rparr>" "\<lambda>c. ''[]''"]
  by (simp add: saved_def stocked_def browser_def mount_def clearCart_def removeItem_def
        persist_def setItem_def storage_access_def console_error_def)

text \<open>
  The claim as the specification words it promises an absent or cleared key even when
  the erase throws. In a browser that refuses every storage call, the erase of line 148
  and the write of line 77 both throw and are both logged, and the key keeps the text it
  held.
\<close>

theorem refused_storage_counterexample:
  "cart (clearCart (saved\<lparr>faults := [True, True]\<rparr>)) = [] \<and>
   localStorage (clearCart (saved\<lparr>faults := [True, True]\<rparr>)) ''cart'' = Some ''[pen,ink]'' \<and>
   persist (\<lambda>c. ''[]'') (clearCart (saved\<lparr>faults := [True, True]\<rparr>)) =
     saved\<lparr>cart := [], console := [ClearFailed DOMException, SaveFailed DOMException]\<rparr> \<and>
   localStorage (persist (\<lambda>c. ''[]'') (clearCart (saved\<lparr>faults := [True, True]\<rparr>))) ''cart''
     = Some ''[pen,ink]''"
  by (simp add: saved_def stocked_def browser_def mount_def clearCart_def removeItem_def
        persist_def setItem_def storage_access_def console_error_def)

end
